theory Spec2Isabelle
  imports Complex_Main "HOL-Library.Sublist" "HOL-Library.Log_Nat"
begin

section \<open>Numbers\<close>

text \<open>
  A JavaScript \<^verbatim>\<open>number\<close> is an IEEE 754 double. Two models of it are used. The movement
  code below computes with \<open>real\<close>: sums, products and comparisons are taken exactly, and
  rounding, infinities and NaN are left out. For the arithmetic of the vectors themselves
  the type \<open>double\<close> gives the results of the operators \<^verbatim>\<open>+\<close>, \<^verbatim>\<open>-\<close> and \<^verbatim>\<open>*\<close> as the
  standard defines them: the exact result, rounded to the nearest number with a
  significand of 53 bits, ties to the even one, gradual underflow below \<open>pow2 (- 1022)\<close> and
  overflow to an infinity from \<open>2 ^ 1024\<close> on. The two zeros are one value \<open>Num 0\<close>, as
  they are for \<^verbatim>\<open>===\<close>; none of the three operators depends on the sign of a zero operand
  otherwise. \<open>Infinity True\<close> is the negative infinity.
\<close>

datatype double = Num real | Infinity bool | NaN

definition pow2 :: "int \<Rightarrow> real" where
  "pow2 e = (if 0 \<le> e then 2 ^ nat e else 1 / 2 ^ nat (- e))"

text \<open>
  The exponent of a number other than 0: the \<open>e\<close> with \<open>pow2 e \<le> \<bar>x\<bar> < pow2 (e + 1)\<close>, computed
  from the number of binary digits of \<open>\<lfloor>\<bar>x\<bar>\<rfloor>\<close>, or of \<open>\<lceil>1 / \<bar>x\<bar>\<rceil> - 1\<close> below 1.
\<close>

definition exponent :: "real \<Rightarrow> int" where
  "exponent x =
     (if 1 \<le> \<bar>x\<bar> then int (floorlog 2 (nat \<lfloor>\<bar>x\<bar>\<rfloor>)) - 1
      else - int (floorlog 2 (nat (\<lceil>1 / \<bar>x\<bar>\<rceil> - 1))))"

definition roundTiesToEven :: "real \<Rightarrow> int" where
  "roundTiesToEven y =
     (if y - of_int \<lfloor>y\<rfloor> < 1 / 2 then \<lfloor>y\<rfloor>
      else if 1 / 2 < y - of_int \<lfloor>y\<rfloor> then \<lfloor>y\<rfloor> + 1
      else if even \<lfloor>y\<rfloor> then \<lfloor>y\<rfloor> else \<lfloor>y\<rfloor> + 1)"

text \<open>The double that an exact result is rounded to.\<close>

definition rd :: "real \<Rightarrow> double" where
  "rd x =
     (if x = 0 then Num 0
      else
        let e = max (exponent x) (- 1022);
            ulp = pow2 (e - 52);
            y = ulp * of_int (roundTiesToEven (x / ulp))
        in if 2 ^ 1024 \<le> \<bar>y\<bar> then Infinity (x < 0) else Num y)"

instantiation double :: "{plus, minus, times}"
begin

fun plus_double :: "double \<Rightarrow> double \<Rightarrow> double" where
  "Num a + Num b = rd (a + b)"
| "NaN + y = NaN"
| "x + NaN = NaN"
| "Infinity s + Infinity t = (if s = t then Infinity s else NaN)"
| "Infinity s + Num b = Infinity s"
| "Num a + Infinity t = Infinity t"

fun minus_double :: "double \<Rightarrow> double \<Rightarrow> double" where
  "Num a - Num b = rd (a - b)"
| "NaN - y = NaN"
| "x - NaN = NaN"
| "Infinity s - Infinity t = (if s = t then NaN else Infinity s)"
| "Infinity s - Num b = Infinity s"
| "Num a - Infinity t = Infinity (\<not> t)"

fun times_double :: "double \<Rightarrow> double \<Rightarrow> double" where
  "Num a * Num b = rd (a * b)"
| "NaN * y = NaN"
| "x * NaN = NaN"
| "Infinity s * Infinity t = Infinity (s \<noteq> t)"
| "Infinity s * Num b = (if b = 0 then NaN else Infinity (s \<noteq> (b < 0)))"
| "Num a * Infinity t = (if a = 0 then NaN else Infinity ((a < 0) \<noteq> t))"

instance ..

end

section \<open>Geometry utility (utils.ts, class Vector3 and calculateYaw)\<close>

text \<open>
  The operations of \<^verbatim>\<open>Vector3\<close> are written with the operators of the number type, so
  that they can be read on \<open>double\<close>, on \<open>real\<close> and on any other type with these operators.
\<close>

datatype 'a Vector3 = Vector3 (vx: 'a) (vy: 'a) (vz: 'a)

definition scale :: "'a::times Vector3 \<Rightarrow> 'a \<Rightarrow> 'a Vector3" where
  "scale v factor = Vector3 (vx v * factor) (vy v * factor) (vz v * factor)"

definition add :: "'a::plus Vector3 \<Rightarrow> 'a Vector3 \<Rightarrow> 'a Vector3" where
  "add v vector = Vector3 (vx v + vx vector) (vy v + vy vector) (vz v + vz vector)"

definition subtract :: "'a::minus Vector3 \<Rightarrow> 'a Vector3 \<Rightarrow> 'a Vector3" where
  "subtract v vector = Vector3 (vx v - vx vector) (vy v - vy vector) (vz v - vz vector)"

text \<open>\<^verbatim>\<open>Math.floor\<close> rounds towards minus infinity, as \<open>\<lfloor>_\<rfloor>\<close> does.\<close>

definition floor3 :: "real Vector3 \<Rightarrow> real Vector3" where
  "floor3 v = Vector3 (of_int \<lfloor>vx v\<rfloor>) (of_int \<lfloor>vy v\<rfloor>) (of_int \<lfloor>vz v\<rfloor>)"

definition center :: "real Vector3 \<Rightarrow> real Vector3" where
  "center v = Vector3 (of_int \<lfloor>vx v\<rfloor> + 0.5) (vy v) (of_int \<lfloor>vz v\<rfloor> + 0.5)"

definition length3 :: "real Vector3 \<Rightarrow> real" where
  "length3 v = sqrt (vx v * vx v + vy v * vy v + vz v * vz v)"

text \<open>
  \<^verbatim>\<open>Math.atan2(b, a)\<close>, the angle of the point \<open>(a, b)\<close> in \<open>(-\<pi>, \<pi>]\<close>, written with
  \<open>arctan\<close>; the origin is sent to 0 as JavaScript does for two positive zeros.
\<close>

definition atan2 :: "real \<Rightarrow> real \<Rightarrow> real" where
  "atan2 b a =
     (if 0 < a then arctan (b / a)
      else if a < 0 \<and> 0 \<le> b then arctan (b / a) + pi
      else if a < 0 then arctan (b / a) - pi
      else if 0 < b then pi / 2
      else if b < 0 then - (pi / 2)
      else 0)"

definition calculateYaw :: "real Vector3 \<Rightarrow> real" where
  "calculateYaw vector = atan2 (vz vector) (vx vector) * (180 / pi) - 90"





section \<open>Data of the movement manager (utils.ts, interfaces and class fields)\<close>

text \<open>
  \<^verbatim>\<open>MovementConfig\<close> has the one optional property \<^verbatim>\<open>canJump\<close>: \<open>None\<close> is the absent
  property. \<^verbatim>\<open>Callbacks\<close> holds at most one handler per event; a handler is named by a
  number, and what a handler does when it is invoked is not part of the manager: the
  invocation is recorded in the log.
\<close>

record MovementConfig =
  canJump :: "bool option"

record Callbacks =
  onStart :: "nat option"
  onStop :: "nat option"
  onComplete :: "nat option"

text \<open>
  The promises of the manager. \<open>Queue k\<close> is the value of \<^verbatim>\<open>this.queue\<close> after \<open>k\<close> calls
  of \<^verbatim>\<open>move\<close> (\<open>Queue 0\<close> is the \<^verbatim>\<open>Promise.resolve()\<close> of the constructor);
  \<open>Completion j\<close> is the promise that the \<open>j\<close>-th call of \<^verbatim>\<open>start\<close> makes with
  \<^verbatim>\<open>this.queue.then(...)\<close>.
\<close>

datatype promise = Queue nat | Completion nat

text \<open>
  What the manager does to the world, the scheduler and its handlers, in the order it
  does it. \<open>Fulfilled\<close> and \<open>Rejected\<close> record the settlement of a promise.
\<close>

datatype effect =
    OnStartCalled nat string real MovementConfig
  | OnStopCalled nat
  | OnCompleteCalled nat
  | SetCurrentValue real
  | ResetToDefaultValue
  | SetRotation real real
  | ApplyImpulse "real Vector3"
  | Teleport "real Vector3"
  | RunCommand real real
  | RunInterval nat
  | Run nat
  | ClearRun nat
  | Fulfilled promise
  | Rejected promise

text \<open>
  What the entity and its dimension answer during one callback: \<^verbatim>\<open>isValid()\<close>,
  \<^verbatim>\<open>location\<close>, \<^verbatim>\<open>isOnGround\<close>, \<^verbatim>\<open>getComponent(Movement)\<close> (\<open>None\<close> when the entity has
  no such component, \<open>Some None\<close> when its \<^verbatim>\<open>defaultValue\<close> is undefined),
  \<^verbatim>\<open>getBlockFromRay\<close> along the direction of the leg, and \<^verbatim>\<open>getRotation()\<close>.
  A hit carries the \<^verbatim>\<open>isAir\<close> of the block above the one hit, \<open>None\<close> when
  \<^verbatim>\<open>above()\<close> is undefined.
\<close>

datatype raycast = NoHit | Hit "bool option"

record world =
  isValid :: bool
  location :: "real Vector3"
  isOnGround :: bool
  movementComponent :: "real option option"
  blockFromRay :: raycast
  rotation :: "real \<times> real"

text \<open>The variables that one call of \<^verbatim>\<open>executeMove\<close> closes over.\<close>

record leg =
  direction :: string
  distance :: real
  options :: MovementConfig
  impulseVector :: "real Vector3"
  startPosition :: "real Vector3"
  distanceTraveled :: real
  climbing :: bool
  wasOnGround :: bool

text \<open>
  The callbacks registered with \<^verbatim>\<open>system.runInterval\<close> and \<^verbatim>\<open>system.run\<close>:
  \<^verbatim>\<open>moveEntity\<close> and \<^verbatim>\<open>updateRotation\<close> of the leg with the given number.
\<close>

datatype job = MoveJob nat | RotJob nat

text \<open>
  The reactions attached to \<^verbatim>\<open>this.queue\<close> with \<^verbatim>\<open>then\<close> and not run yet: the step of
  \<^verbatim>\<open>move\<close> that settles \<open>Queue k\<close>, and the step of \<^verbatim>\<open>start\<close> that settles
  \<open>Completion j\<close>.
\<close>

datatype item = Leg nat string real MovementConfig | Complete nat

fun promise_of :: "item \<Rightarrow> promise" where
  "promise_of (Leg k dir dst cfg) = Queue k"
| "promise_of (Complete j) = Completion j"

text \<open>
  The state: the fields of the manager (\<open>isStopped\<close>, \<open>intervalHandles\<close>, \<open>config\<close>,
  \<open>callbacks\<close>); the promise chain behind \<^verbatim>\<open>this.queue\<close> (\<open>moves\<close>: \<^verbatim>\<open>this.queue\<close> is
  \<open>Queue (moves s)\<close>; \<open>starts\<close>: the number of calls of \<^verbatim>\<open>start\<close>; \<open>pending\<close>: the
  reactions not run yet, in the order of their registration; \<open>waiting\<close>: the leg whose
  promise the chain has adopted and which is not fulfilled; \<open>broken\<close>: that promise is
  rejected; \<open>issued\<close>: every promise made by \<^verbatim>\<open>move\<close> and \<^verbatim>\<open>start\<close>, in the order of the
  calls, which no operation reads); the scheduler of the host (\<open>nextHandle\<close>, \<open>jobs\<close>);
  the closures of the legs; and the log of effects.
\<close>

record state =
  isStopped :: bool
  intervalHandles :: "nat list"
  config :: MovementConfig
  callbacks :: Callbacks
  moves :: nat
  starts :: nat
  pending :: "item list"
  waiting :: "nat option"
  broken :: bool
  issued :: "promise list"
  nextHandle :: nat
  jobs :: "(nat \<times> job) list"
  legs :: "nat \<Rightarrow> leg option"
  log :: "effect list"

section \<open>The host: scheduler and promise settlement\<close>

definition emit :: "effect \<Rightarrow> state \<Rightarrow> state" where
  "emit e s = s\<lparr>log := log s @ [e]\<rparr>"

text \<open>
  \<^verbatim>\<open>system.clearRun(h)\<close> cancels the callback registered under \<open>h\<close>;
  \<^verbatim>\<open>system.runInterval\<close> and \<^verbatim>\<open>system.run\<close> register a callback under a handle not
  given out before and return the handle.
\<close>

definition clearRun :: "nat \<Rightarrow> state \<Rightarrow> state" where
  "clearRun h s = emit (ClearRun h) (s\<lparr>jobs := filter (\<lambda>p. fst p \<noteq> h) (jobs s)\<rparr>)"

definition runInterval :: "job \<Rightarrow> state \<Rightarrow> nat \<times> state" where
  "runInterval j s =
     (nextHandle s,
      emit (RunInterval (nextHandle s))
        (s\<lparr>jobs := jobs s @ [(nextHandle s, j)], nextHandle := Suc (nextHandle s)\<rparr>))"

definition run_once :: "job \<Rightarrow> state \<Rightarrow> nat \<times> state" where
  "run_once j s =
     (nextHandle s,
      emit (Run (nextHandle s))
        (s\<lparr>jobs := jobs s @ [(nextHandle s, j)], nextHandle := Suc (nextHandle s)\<rparr>))"

text \<open>
  The \<^verbatim>\<open>resolve\<close> of the promise of leg \<open>k\<close>: the first call fulfils the promise, and with
  it \<open>Queue k\<close>, which has adopted it; a call on a settled promise does nothing. An
  exception in the executor of the promise rejects it, and the chain with it: a reaction
  registered with \<^verbatim>\<open>then\<close> and one argument is not run on a rejected promise.
\<close>

definition resolve :: "nat \<Rightarrow> state \<Rightarrow> state" where
  "resolve k s =
     (if waiting s = Some k \<and> \<not> broken s
      then emit (Fulfilled (Queue k)) (s\<lparr>waiting := None\<rparr>)
      else s)"

definition reject :: "nat \<Rightarrow> state \<Rightarrow> state" where
  "reject k s = emit (Rejected (Queue k)) (s\<lparr>broken := True\<rparr>)"

section \<open>Class MovementManager\<close>

definition constructor :: "MovementConfig \<Rightarrow> state" where
  "constructor cfg =
     \<lparr>isStopped = False, intervalHandles = [],
      config = \<lparr>canJump = (case canJump cfg of None \<Rightarrow> Some True | Some b \<Rightarrow> Some b)\<rparr>,
      callbacks = \<lparr>onStart = None, onStop = None, onComplete = None\<rparr>,
      moves = 0, starts = 0, pending = [], waiting = None, broken = False, issued = [],
      nextHandle = 0, jobs = [], legs = (\<lambda>k. None), log = []\<rparr>"

definition on :: "string \<Rightarrow> nat option \<Rightarrow> state \<Rightarrow> state" where
  "on event callback s =
     (if event = ''onStart'' then s\<lparr>callbacks := (callbacks s)\<lparr>onStart := callback\<rparr>\<rparr>
      else if event = ''onStop'' then s\<lparr>callbacks := (callbacks s)\<lparr>onStop := callback\<rparr>\<rparr>
      else if event = ''onComplete'' then s\<lparr>callbacks := (callbacks s)\<lparr>onComplete := callback\<rparr>\<rparr>
      else s)"

text \<open>The spread \<^verbatim>\<open>{ ...this.config, ...options }\<close>: a property of \<open>opts\<close> that is present wins.\<close>

definition merge :: "MovementConfig \<Rightarrow> MovementConfig \<Rightarrow> MovementConfig" where
  "merge base opts = \<lparr>canJump = (case canJump opts of None \<Rightarrow> canJump base | Some b \<Rightarrow> Some b)\<rparr>"

definition clearAllIntervals :: "state \<Rightarrow> state" where
  "clearAllIntervals s = (fold clearRun (intervalHandles s) s)\<lparr>intervalHandles := []\<rparr>"

definition directions :: "string \<Rightarrow> real Vector3 option" where
  "directions name =
     (if name = ''north'' then Some (Vector3 0 0 (-1))
      else if name = ''south'' then Some (Vector3 0 0 1)
      else if name = ''west'' then Some (Vector3 (-1) 0 0)
      else if name = ''east'' then Some (Vector3 1 0 0)
      else if name = ''northeast'' then Some (scale (Vector3 1 0 (-1)) (sqrt (1 / 2)))
      else if name = ''southeast'' then Some (scale (Vector3 1 0 1) (sqrt (1 / 2)))
      else if name = ''southwest'' then Some (scale (Vector3 (-1) 0 1) (sqrt (1 / 2)))
      else if name = ''northwest'' then Some (scale (Vector3 (-1) 0 (-1)) (sqrt (1 / 2)))
      else None)"

text \<open>
  \<^verbatim>\<open>moveEntity\<close> of leg \<open>k\<close>, the callback of the interval: the abort check, then the
  first rule of the chain of \<^verbatim>\<open>if\<close>s that matches. The early \<^verbatim>\<open>return\<close> of the abort
  skips the assignment to \<^verbatim>\<open>wasOnGround\<close>; every other path ends with it.
\<close>

definition moveEntity :: "nat \<Rightarrow> world \<Rightarrow> state \<Rightarrow> state" where
  "moveEntity k w s =
     (case legs s k of
        None \<Rightarrow> s
      | Some l \<Rightarrow>
          if isStopped s \<or> \<not> isValid w then resolve k (clearAllIntervals s)
          else
            let s' =
              (if canJump (options l) = Some True
                  \<and> (case blockFromRay w of NoHit \<Rightarrow> False | Hit air \<Rightarrow> air = Some True)
                  \<and> isOnGround w \<and> \<not> climbing l
               then (emit (ApplyImpulse (Vector3 0 0.5 0)) s)
                      \<lparr>legs := (legs s)(k \<mapsto> l\<lparr>climbing := True\<rparr>)\<rparr>
               else if climbing l \<and> \<not> isOnGround w
               then emit (ApplyImpulse
                      (Vector3 (vx (impulseVector l) * 0.5) 0 (vz (impulseVector l) * 0.5))) s
               else if climbing l \<and> isOnGround w
               then s\<lparr>legs := (legs s)(k \<mapsto> l\<lparr>climbing := False\<rparr>)\<rparr>
               else if isOnGround w
               then
                 (let currentPosition = center (location w);
                      traveled = distanceTraveled l
                                 + length3 (subtract currentPosition (startPosition l));
                      s1 = s\<lparr>legs := (legs s)(k \<mapsto>
                              l\<lparr>distanceTraveled := traveled, startPosition := currentPosition\<rparr>)\<rparr>
                  in if traveled < distance l
                     then emit (ApplyImpulse (impulseVector l)) s1
                     else resolve k
                            (emit (Teleport (center (location w)))
                              (emit ResetToDefaultValue (clearAllIntervals s1))))
               else s)
            in (case legs s' k of
                  None \<Rightarrow> s'
                | Some l' \<Rightarrow> s'\<lparr>legs := (legs s')(k \<mapsto> l'\<lparr>wasOnGround := isOnGround w\<rparr>)\<rparr>))"

text \<open>
  \<^verbatim>\<open>updateRotation\<close> of leg \<open>k\<close>: it registers itself again with \<^verbatim>\<open>system.run\<close> while the
  distance is not reached, and drops the handle that \<^verbatim>\<open>system.run\<close> returns.
\<close>

definition updateRotation :: "nat \<Rightarrow> world \<Rightarrow> state \<Rightarrow> state" where
  "updateRotation k w s =
     (case legs s k of
        None \<Rightarrow> s
      | Some l \<Rightarrow>
          if isStopped s \<or> \<not> isValid w then resolve k (clearAllIntervals s)
          else if distanceTraveled l < distance l
          then snd (run_once (RotJob k)
                 (emit (RunCommand (fst (rotation w)) (snd (rotation w)))
                   (emit (SetRotation 0 (calculateYaw (impulseVector l))) s)))
          else s)"

text \<open>
  \<^verbatim>\<open>executeMove\<close> for the step that settles \<open>Queue k\<close>. The chain adopts the promise
  that is returned; the executor runs at once. Reading \<^verbatim>\<open>defaultValue\<close> of an undefined
  component, and calling \<^verbatim>\<open>scale\<close> on the undefined entry of a name that is not in the
  table, throw a TypeError, which rejects the promise.
\<close>

definition executeMove :: "nat \<Rightarrow> string \<Rightarrow> real \<Rightarrow> MovementConfig \<Rightarrow> world \<Rightarrow> state \<Rightarrow> state" where
  "executeMove k dir dst opts w s0 =
     (let s = s0\<lparr>waiting := Some k\<rparr> in
      if \<not> isValid w then resolve k (clearAllIntervals s)
      else
        case movementComponent w of
          None \<Rightarrow> reject k s
        | Some defaultValue \<Rightarrow>
            let speed = (case defaultValue of None \<Rightarrow> 0.1 | Some v \<Rightarrow> v) in
            case directions dir of
              None \<Rightarrow> reject k s
            | Some d \<Rightarrow>
                let impulse = scale d speed;
                    l = \<lparr>direction = dir, distance = dst, options = opts,
                         impulseVector = impulse,
                         startPosition = center (location w),
                         distanceTraveled = 0,
                         climbing = False,
                         wasOnGround = isOnGround w\<rparr>;
                    s1 = emit (SetCurrentValue 0) s;
                    s2 = emit (SetRotation 0 (calculateYaw impulse)) s1;
                    s3 = s2\<lparr>legs := (legs s2)(k \<mapsto> l)\<rparr>;
                    (intervalHandle, s4) = runInterval (MoveJob k) s3;
                    s5 = s4\<lparr>intervalHandles := intervalHandles s4 @ [intervalHandle]\<rparr>
                in updateRotation k w s5)"

text \<open>The reaction that \<^verbatim>\<open>move\<close> attaches, and the one that \<^verbatim>\<open>start\<close> attaches.\<close>

fun runItem :: "world \<Rightarrow> item \<Rightarrow> state \<Rightarrow> state" where
  "runItem w (Leg k dir dst cfg) s =
     (if isStopped s \<or> \<not> isValid w
      then emit (Fulfilled (Queue k)) (clearAllIntervals s)
      else executeMove k dir dst cfg w
             (case onStart (callbacks s) of
                None \<Rightarrow> s
              | Some h \<Rightarrow> emit (OnStartCalled h dir dst cfg) s))"
| "runItem w (Complete j) s =
     emit (Fulfilled (Completion j))
       (case onComplete (callbacks s) of
          None \<Rightarrow> s
        | Some h \<Rightarrow> emit (OnCompleteCalled h) s)"

definition move :: "string \<Rightarrow> real \<Rightarrow> MovementConfig \<Rightarrow> state \<Rightarrow> state" where
  "move dir dst opts s =
     s\<lparr>moves := Suc (moves s),
       pending := pending s @ [Leg (Suc (moves s)) dir dst (merge (config s) opts)],
       issued := issued s @ [Queue (Suc (moves s))]\<rparr>"

definition start :: "state \<Rightarrow> promise \<times> state" where
  "start s =
     (Completion (starts s),
      s\<lparr>starts := Suc (starts s),
        pending := pending s @ [Complete (starts s)],
        issued := issued s @ [Completion (starts s)]\<rparr>)"

definition stop :: "state \<Rightarrow> promise \<times> state" where
  "stop s =
     (let s1 = clearAllIntervals (s\<lparr>isStopped := True\<rparr>);
          s2 = (case onStop (callbacks s1) of None \<Rightarrow> s1 | Some h \<Rightarrow> emit (OnStopCalled h) s1)
      in (Queue (moves s2), s2))"

section \<open>Running the manager\<close>

text \<open>
  The jobs of the promises: the reactions run in the order of their registration, as long
  as the chain is neither waiting for a leg nor rejected.
\<close>

fun drain :: "world \<Rightarrow> item list \<Rightarrow> state \<Rightarrow> state" where
  "drain w [] s = s\<lparr>pending := []\<rparr>"
| "drain w (it # its) s =
     (if waiting s \<noteq> None \<or> broken s then s\<lparr>pending := it # its\<rparr>
      else drain w its (runItem w it s))"

definition flush :: "world \<Rightarrow> state \<Rightarrow> state" where
  "flush w s = drain w (pending s) s"

text \<open>
  The scheduler runs the callback registered under a handle: a callback of
  \<^verbatim>\<open>system.run\<close> is registered for one run, one of \<^verbatim>\<open>system.runInterval\<close> stays.
\<close>

definition fire :: "nat \<Rightarrow> world \<Rightarrow> state \<Rightarrow> state" where
  "fire h w s =
     (case map_of (jobs s) h of
        None \<Rightarrow> s
      | Some (MoveJob k) \<Rightarrow> moveEntity k w s
      | Some (RotJob k) \<Rightarrow>
          updateRotation k w (s\<lparr>jobs := filter (\<lambda>p. fst p \<noteq> h) (jobs s)\<rparr>))"

text \<open>
  What happens to a manager: a call of one of its methods, a callback run by the
  scheduler, or the jobs of the promises being run; each with what the world answers
  then. Any order of these is a run: the script that drives the manager may call its
  methods in one block before any promise job runs (\<open>Move\<close>, \<open>Start\<close>, \<open>Stop\<close> in a row)
  or between ticks, and the host may run the promise jobs after each callback or later.
  The fulfilment of \<open>Queue k\<close> is logged when \<^verbatim>\<open>resolve\<close> is called, the reactions to it
  run with the next \<open>Flush\<close>.
\<close>

datatype event =
    Move string real MovementConfig
  | On string "nat option"
  | Start
  | Stop
  | Fire nat world
  | Flush world

fun step :: "event \<Rightarrow> state \<Rightarrow> state" where
  "step (Move dir dst opts) s = move dir dst opts s"
| "step (On ev cb) s = on ev cb s"
| "step Start s = snd (start s)"
| "step Stop s = snd (stop s)"
| "step (Fire h w) s = fire h w s"
| "step (Flush w) s = flush w s"

definition run :: "event list \<Rightarrow> state \<Rightarrow> state" where
  "run es s = fold step es s"

section \<open>Notions used in the statements\<close>

text \<open>The promises that a log records as fulfilled, in the order of their fulfilment.\<close>

fun fulfilled :: "effect list \<Rightarrow> promise list" where
  "fulfilled [] = []"
| "fulfilled (Fulfilled p # es) = p # fulfilled es"
| "fulfilled (e # es) = fulfilled es"

text \<open>What \<open>s'\<close> has logged beyond the log of \<open>s\<close>.\<close>

definition since :: "state \<Rightarrow> state \<Rightarrow> effect list" where
  "since s s' = drop (length (log s)) (log s')"





text \<open>
  Every live callback of \<^verbatim>\<open>system.runInterval\<close> is registered under a tracked handle and
  belongs to the leg in flight, on a manager that is not stopped; and no handle is tracked
  while the chain waits for no leg.
\<close>

definition handles_inv :: "state \<Rightarrow> bool" where
  "handles_inv s \<longleftrightarrow>
     (\<forall>h k. (h, MoveJob k) \<in> set (jobs s) \<longrightarrow>
        h \<in> set (intervalHandles s) \<and> waiting s = Some k \<and> \<not> broken s \<and> \<not> isStopped s
        \<and> legs s k \<noteq> None) \<and>
     (waiting s = None \<longrightarrow> intervalHandles s = [])"

text \<open>
  The effects that a stopped manager still has: cancelling callbacks, the handlers of
  \<^verbatim>\<open>stop\<close> and \<^verbatim>\<open>start\<close>, and the settlement of promises. Neither \<open>OnStartCalled\<close> nor
  any effect on the entity is among them.
\<close>

fun quiet :: "effect \<Rightarrow> bool" where
  "quiet (ClearRun h) = True"
| "quiet (OnStopCalled h) = True"
| "quiet (OnCompleteCalled h) = True"
| "quiet (Fulfilled p) = True"
| "quiet e = False"

text \<open>The manager is stopped, and all it has logged from position \<open>n\<close> on is quiet.\<close>

definition quiet_from :: "nat \<Rightarrow> state \<Rightarrow> bool" where
  "quiet_from n s \<longleftrightarrow> isStopped s \<and> n \<le> length (log s) \<and> list_all quiet (drop n (log s))"

text \<open>The log of \<open>s'\<close> extends the log of \<open>s\<close>.\<close>

definition grows :: "state \<Rightarrow> state \<Rightarrow> bool" where
  "grows s s' \<longleftrightarrow> (\<exists>xs. log s' = log s @ xs)"

text \<open>The handlers of \<^verbatim>\<open>onComplete\<close> that a log records as invoked, in order.\<close>

fun completed :: "effect list \<Rightarrow> nat list" where
  "completed [] = []"
| "completed (OnCompleteCalled h # es) = h # completed es"
| "completed (e # es) = completed es"


text \<open>Nothing logged from position \<open>n\<close> on resets the movement speed.\<close>

definition no_reset_from :: "nat \<Rightarrow> state \<Rightarrow> bool" where
  "no_reset_from n s \<longleftrightarrow> n \<le> length (log s) \<and> ResetToDefaultValue \<notin> set (drop n (log s))"






section \<open>Example inputs\<close>

definition no_options :: MovementConfig where
  "no_options = \<lparr>canJump = None\<rparr>"

text \<open>
  A valid entity that stands at the origin, has a movement component with the default
  value 1/4 and no block in front of it; the same entity one block and five blocks to the
  north; and the entity in front of a block with air above it.
\<close>

definition plain :: world where
  "plain = \<lparr>isValid = True, location = Vector3 0 0 0, isOnGround = True,
            movementComponent = Some (Some (1 / 4)), blockFromRay = NoHit, rotation = (0, 0)\<rparr>"

definition walked :: world where
  "walked = plain\<lparr>location := Vector3 0 0 (- 1)\<rparr>"

definition arrived :: world where
  "arrived = plain\<lparr>location := Vector3 0 0 (- 5)\<rparr>"

definition obstacle :: world where
  "obstacle = plain\<lparr>location := Vector3 0 0 (- 1), blockFromRay := Hit (Some True)\<rparr>"

text \<open>A leg of five blocks to the north that has been started; the same leg stopped.\<close>

definition one_leg :: "event list" where
  "one_leg = [Move ''north'' 5 no_options, Flush plain]"

definition stopped_leg :: "event list" where
  "stopped_leg = [Move ''north'' 5 no_options, Flush plain, Stop, Fire 1 plain]"

text \<open>An entity without a movement component, and a route started on it.\<close>

definition bare :: world where
  "bare = plain\<lparr>movementComponent := None\<rparr>"

definition no_component_route :: "event list" where
  "no_component_route =
     [On ''onStart'' (Some 7), On ''onComplete'' (Some 8),
      Move ''north'' 5 no_options, Move ''east'' 5 no_options, Start, Flush bare]"

text \<open>
  A route with a handler for \<^verbatim>\<open>onComplete\<close>: set up, then started, then stopped while
  its leg is in flight, the rotation loop running once more after the stop.
\<close>

definition route_setup :: "event list" where
  "route_setup = [On ''onComplete'' (Some 8), Move ''north'' 5 no_options]"

definition route_started :: "event list" where
  "route_started = route_setup @ [Start, Flush plain]"

definition route_stopped :: "event list" where
  "route_stopped = route_started @ [Stop, Fire 1 plain]"

text \<open>The same handler, with \<^verbatim>\<open>start\<close> called before the leg is enqueued.\<close>

definition early_start :: "event list" where
  "early_start =
     [On ''onComplete'' (Some 8), Start, Move ''north'' 5 no_options, Flush plain]"





section \<open>Rounding\<close>













section \<open>Properties of the geometry utility\<close>




section \<open>Clearing the handles\<close>

lemma fold_clearRun:
  "fold clearRun hs s =
     s\<lparr>jobs := filter (\<lambda>p. fst p \<notin> set hs) (jobs s), log := log s @ map ClearRun hs\<rparr>"
proof (induction hs arbitrary: s)
  case Nil
  show ?case by simp
next
  case (Cons h hs)
  have "fold clearRun (h # hs) s = fold clearRun hs (clearRun h s)"
    by simp
  also have "\<dots> = (clearRun h s)\<lparr>jobs := filter (\<lambda>p. fst p \<notin> set hs) (jobs (clearRun h s)),
                                  log := log (clearRun h s) @ map ClearRun hs\<rparr>"
    by (rule Cons.IH)
  also have "\<dots> = s\<lparr>jobs := filter (\<lambda>p. fst p \<notin> set (h # hs)) (jobs s),
                      log := log s @ map ClearRun (h # hs)\<rparr>"
    by (simp add: clearRun_def emit_def conj_commute)
  finally show ?case .
qed

lemma clearAllIntervals_eq:
  "clearAllIntervals s =
     s\<lparr>intervalHandles := [],
       jobs := filter (\<lambda>p. fst p \<notin> set (intervalHandles s)) (jobs s),
       log := log s @ map ClearRun (intervalHandles s)\<rparr>"
  by (simp add: clearAllIntervals_def fold_clearRun)

section \<open>The tracked handles\<close>

lemma handles_inv_moveEntity: "handles_inv s \<Longrightarrow> handles_inv (moveEntity k w s)"
  by (auto simp: handles_inv_def moveEntity_def clearAllIntervals_eq resolve_def emit_def Let_def
      split: option.splits raycast.splits)

lemma handles_inv_updateRotation: "handles_inv s \<Longrightarrow> handles_inv (updateRotation k w s)"
  by (auto simp: handles_inv_def updateRotation_def clearAllIntervals_eq resolve_def emit_def
      run_once_def Let_def split: option.splits)

lemma handles_inv_executeMove:
  "handles_inv s \<Longrightarrow> waiting s = None \<Longrightarrow> \<not> broken s
   \<Longrightarrow> handles_inv (executeMove k dir dst opts w s)"
  by (auto simp: handles_inv_def executeMove_def updateRotation_def clearAllIntervals_eq
      resolve_def reject_def emit_def runInterval_def run_once_def Let_def split: option.splits)

lemma handles_inv_runItem:
  assumes inv: "handles_inv s" and idle: "waiting s = None" "\<not> broken s"
  shows "handles_inv (runItem w it s)"
proof (cases it)
  case (Leg k dir dst cfg)
  have a: "handles_inv (emit e s) \<and> waiting (emit e s) = None \<and> \<not> broken (emit e s)" for e
    using inv idle by (simp add: handles_inv_def emit_def)
  have b: "handles_inv (emit e (clearAllIntervals s))" for e
    using inv by (auto simp: handles_inv_def emit_def clearAllIntervals_eq)
  show ?thesis
    using inv idle a b by (simp add: Leg handles_inv_executeMove split: option.splits)
next
  case (Complete j)
  show ?thesis
    using inv by (simp add: Complete handles_inv_def emit_def split: option.splits)
qed

lemma handles_inv_drain: "handles_inv s \<Longrightarrow> handles_inv (drain w its s)"
proof (induction its arbitrary: s)
  case Nil
  then show ?case by (simp add: handles_inv_def)
next
  case (Cons it its)
  have "handles_inv (s\<lparr>pending := it # its\<rparr>)"
    using Cons.prems by (simp add: handles_inv_def)
  then show ?case
    using Cons by (simp add: handles_inv_runItem)
qed

lemma handles_inv_fire: "handles_inv s \<Longrightarrow> handles_inv (fire h w s)"
proof -
  assume inv: "handles_inv s"
  have "handles_inv (s\<lparr>jobs := filter (\<lambda>p. fst p \<noteq> h) (jobs s)\<rparr>)"
    using inv by (auto simp: handles_inv_def)
  then show ?thesis
    using inv
    by (simp add: fire_def handles_inv_moveEntity handles_inv_updateRotation
        split: option.splits job.splits)
qed

lemma handles_inv_step: "handles_inv s \<Longrightarrow> handles_inv (step e s)"
proof (cases e)
  case (Move dir dst opts)
  assume "handles_inv s"
  then show ?thesis by (simp add: Move move_def handles_inv_def)
next
  case (On ev cb)
  assume "handles_inv s"
  then show ?thesis by (simp add: On on_def handles_inv_def)
next
  case Start
  assume "handles_inv s"
  then show ?thesis by (simp add: Start start_def handles_inv_def)
next
  case Stop
  assume "handles_inv s"
  then show ?thesis
    by (auto simp: Stop stop_def handles_inv_def clearAllIntervals_eq emit_def Let_def
        split: option.splits)
next
  case (Fire h w)
  assume "handles_inv s"
  then show ?thesis by (simp add: Fire handles_inv_fire)
next
  case (Flush w)
  assume "handles_inv s"
  then show ?thesis by (simp add: Flush flush_def handles_inv_drain)
qed

lemma handles_inv_run: "handles_inv s \<Longrightarrow> handles_inv (run es s)"
  unfolding run_def by (induction es arbitrary: s) (simp_all add: handles_inv_step)

lemma handles_inv_constructor: "handles_inv (constructor cfg)"
  by (simp add: handles_inv_def constructor_def)

text \<open>In a state reached from the constructor, a tick of the movement loop finds its leg in flight.\<close>

lemma live_tick:
  assumes "map_of (jobs (run es (constructor cfg))) h = Some (MoveJob k)"
  shows "waiting (run es (constructor cfg)) = Some k \<and> \<not> broken (run es (constructor cfg))
       \<and> \<not> isStopped (run es (constructor cfg)) \<and> legs (run es (constructor cfg)) k \<noteq> None
       \<and> h \<in> set (intervalHandles (run es (constructor cfg)))"
  using handles_inv_run [OF handles_inv_constructor, of es cfg] map_of_SomeD [OF assms]
  by (simp add: handles_inv_def)

section \<open>The promise chain\<close>

lemma fulfilled_append: "fulfilled (xs @ ys) = fulfilled xs @ fulfilled ys"
  by (induction xs rule: fulfilled.induct) simp_all

lemma fulfilled_ClearRun: "fulfilled (map ClearRun hs) = []"
  by (induction hs) simp_all

lemmas fulfilled_simps = fulfilled_append fulfilled_ClearRun
















section \<open>Evaluation of the example inputs\<close>

lemmas eval_defs = run_def flush_def fire_def move_def start_def stop_def constructor_def merge_def
  executeMove_def updateRotation_def moveEntity_def clearAllIntervals_eq
  runInterval_def run_once_def resolve_def reject_def emit_def directions_def
  center_def scale_def subtract_def length3_def on_def Let_def since_def

lemma one_leg_state:
  "jobs (run one_leg (constructor no_options)) = [(0, MoveJob (Suc 0)), (Suc 0, RotJob (Suc 0))]
   \<and> intervalHandles (run one_leg (constructor no_options)) = [0]
   \<and> waiting (run one_leg (constructor no_options)) = Some (Suc 0)"
  by (simp add: one_leg_def no_options_def plain_def eval_defs)

lemma stopped_leg_state:
  "jobs (run stopped_leg (constructor no_options)) = []
   \<and> waiting (run stopped_leg (constructor no_options)) = None"
  by (simp add: stopped_leg_def no_options_def plain_def eval_defs)

lemma leg1_state:
  "legs (run one_leg (constructor no_options)) (Suc 0) =
     Some \<lparr>direction = ''north'', distance = 5, options = \<lparr>canJump = Some True\<rparr>,
           impulseVector = Vector3 0 0 (- (1 / 4)), startPosition = Vector3 (1 / 2) 0 (1 / 2),
           distanceTraveled = 0, climbing = False, wasOnGround = True\<rparr>
   \<and> \<not> isStopped (run one_leg (constructor no_options))
   \<and> \<not> broken (run one_leg (constructor no_options))
   \<and> log (run one_leg (constructor no_options)) =
       [SetCurrentValue 0, SetRotation 0 (calculateYaw (Vector3 0 0 (- (1 / 4)))), RunInterval 0,
        SetRotation 0 (calculateYaw (Vector3 0 0 (- (1 / 4)))), RunCommand 0 0, Run (Suc 0)]"
  by (simp add: one_leg_def no_options_def plain_def eval_defs)

lemma one_leg_stopped_state:
  "isStopped (snd (stop (run one_leg (constructor no_options))))
   \<and> intervalHandles (snd (stop (run one_leg (constructor no_options)))) = []
   \<and> jobs (snd (stop (run one_leg (constructor no_options)))) = [(Suc 0, RotJob (Suc 0))]
   \<and> waiting (snd (stop (run one_leg (constructor no_options)))) = Some (Suc 0)"
  by (simp add: one_leg_def no_options_def plain_def eval_defs)




section \<open>Handle hygiene\<close>

text \<open>
  Claim C1, as stated, fails: the handle that \<^verbatim>\<open>system.run\<close> returns for the rotation
  loop is dropped. After a leg has been started, the callback of the rotation loop is
  registered under handle 1, which is not among the tracked handles.
\<close>

theorem rotation_handle_untracked:
  "(1, RotJob 1) \<in> set (jobs (run one_leg (constructor no_options)))
   \<and> 1 \<notin> set (intervalHandles (run one_leg (constructor no_options)))"
  by (simp add: one_leg_state)

text \<open>
  Claim C1, amended. In every state that a manager reaches, every live callback of
  \<^verbatim>\<open>system.runInterval\<close> (the movement loop of a leg) is registered under a tracked
  handle; and whenever the chain waits for no leg, so after a leg has resolved on any of its
  paths, no handle is tracked.
\<close>

theorem tracked_handles_hygiene:
  "(\<forall>h k. (h, MoveJob k) \<in> set (jobs (run es (constructor cfg)))
          \<longrightarrow> h \<in> set (intervalHandles (run es (constructor cfg))))
   \<and> (waiting (run es (constructor cfg)) = None
        \<longrightarrow> intervalHandles (run es (constructor cfg)) = [])"
  using handles_inv_run [OF handles_inv_constructor, of es cfg]
  by (simp add: handles_inv_def)

theorem tracked_handles_hygiene_witness:
  "(0, MoveJob 1) \<in> set (jobs (run one_leg (constructor no_options)))
   \<and> 0 \<in> set (intervalHandles (run one_leg (constructor no_options)))
   \<and> waiting (run stopped_leg (constructor no_options)) = None
   \<and> intervalHandles (run stopped_leg (constructor no_options)) = []"
  using tracked_handles_hygiene [of one_leg no_options]
    tracked_handles_hygiene [of stopped_leg no_options]
  by (simp add: one_leg_state stopped_leg_state)

section \<open>The movement loop\<close>

lemma length3_nonneg: "0 \<le> length3 v"
  by (simp add: length3_def)

lemma moveEntity_climb:
  assumes "legs s k = Some l"
    and "\<not> isStopped s" and "isValid w"
    and "canJump (options l) = Some True"
    and "blockFromRay w = Hit (Some True)"
    and "isOnGround w"
    and "\<not> climbing l"
  shows "moveEntity k w s =
           s\<lparr>log := log s @ [ApplyImpulse (Vector3 0 (1 / 2) 0)],
             legs := (legs s)(k \<mapsto> l\<lparr>climbing := True, wasOnGround := True\<rparr>)\<rparr>"
  using assms by (simp add: moveEntity_def emit_def)

text \<open>
  Claim C7. Let the scheduler run the movement loop of a leg, in any state that a manager
  has reached, on a valid entity (so that the tick gets to cast the ray). If \<^verbatim>\<open>canJump\<close>
  is enabled, the ray hits a block, the block above it is air, the entity is on the ground
  and the leg is not climbing, then the tick applies the impulse (0, 0.5, 0), sets the
  climbing flag, and does nothing else: no later rule of the chain is applied, although
  the guard of the last one holds too.
\<close>

theorem climb_start_first:
  assumes "s = run es (constructor cfg)"
    and "map_of (jobs s) h = Some (MoveJob k)"
    and "legs s k = Some l"
    and "isValid w"
    and "canJump (options l) = Some True"
    and "blockFromRay w = Hit (Some True)"
    and "isOnGround w"
    and "\<not> climbing l"
  shows "fire h w s =
           s\<lparr>log := log s @ [ApplyImpulse (Vector3 0 (1 / 2) 0)],
             legs := (legs s)(k \<mapsto> l\<lparr>climbing := True, wasOnGround := True\<rparr>)\<rparr>"
proof -
  have "\<not> isStopped s"
    using live_tick [of es cfg h k] assms(1,2) by simp
  then have "moveEntity k w s =
           s\<lparr>log := log s @ [ApplyImpulse (Vector3 0 (1 / 2) 0)],
             legs := (legs s)(k \<mapsto> l\<lparr>climbing := True, wasOnGround := True\<rparr>)\<rparr>"
    using assms(3-8) by (simp add: moveEntity_climb)
  then show ?thesis
    using assms(2) by (simp add: fire_def)
qed

theorem climb_start_first_witness:
  "map_of (jobs (run one_leg (constructor no_options))) 0 = Some (MoveJob 1)
   \<and> isValid obstacle \<and> blockFromRay obstacle = Hit (Some True) \<and> isOnGround obstacle
   \<and> since (run one_leg (constructor no_options))
         (fire 0 obstacle (run one_leg (constructor no_options)))
     = [ApplyImpulse (Vector3 0 (1 / 2) 0)]
   \<and> map_option climbing (legs (fire 0 obstacle (run one_leg (constructor no_options))) 1)
     = Some True"
  using climb_start_first [OF refl, of one_leg no_options 0 1 _ obstacle]
  by (simp add: one_leg_state leg1_state obstacle_def plain_def since_def)

text \<open>
  Claim C6, as stated, fails: on a tick where the entity is on the ground and the leg is
  not climbing, but the rule of the climb matches, the displacement of one block is not
  added to the distance travelled, and the impulse applied is the upward one.
\<close>

theorem advance_counterexample:
  "isOnGround obstacle
   \<and> map_option climbing (legs (run one_leg (constructor no_options)) 1) = Some False
   \<and> map_option (\<lambda>l. length3 (subtract (center (location obstacle)) (startPosition l)))
        (legs (run one_leg (constructor no_options)) 1) = Some 1
   \<and> map_option distanceTraveled (legs (run one_leg (constructor no_options)) 1) = Some 0
   \<and> map_option distanceTraveled
        (legs (fire 0 obstacle (run one_leg (constructor no_options))) 1) = Some 0
   \<and> since (run one_leg (constructor no_options))
        (fire 0 obstacle (run one_leg (constructor no_options)))
       = [ApplyImpulse (Vector3 0 (1 / 2) 0)]"
  by (simp add: leg1_state one_leg_state obstacle_def plain_def fire_def moveEntity_def emit_def
      since_def center_def subtract_def length3_def)

lemma moveEntity_advance:
  assumes "legs s k = Some l"
    and "waiting s = Some k" and "\<not> broken s"
    and "\<not> isStopped s" and "isValid w"
    and "isOnGround w" and "\<not> climbing l"
    and "\<not> (canJump (options l) = Some True \<and> blockFromRay w = Hit (Some True))"
  shows "(\<exists>l'. legs (moveEntity k w s) k = Some l'
            \<and> distanceTraveled l' = distanceTraveled l
                  + length3 (subtract (center (location w)) (startPosition l))
            \<and> distanceTraveled l \<le> distanceTraveled l'
            \<and> startPosition l' = center (location w))
       \<and> (if distanceTraveled l + length3 (subtract (center (location w)) (startPosition l))
              < distance l
          then log (moveEntity k w s) = log s @ [ApplyImpulse (impulseVector l)]
             \<and> waiting (moveEntity k w s) = Some k
             \<and> intervalHandles (moveEntity k w s) = intervalHandles s
             \<and> jobs (moveEntity k w s) = jobs s
          else log (moveEntity k w s) =
                 log s @ map ClearRun (intervalHandles s)
                   @ [ResetToDefaultValue, Teleport (center (location w)), Fulfilled (Queue k)]
             \<and> waiting (moveEntity k w s) = None
             \<and> intervalHandles (moveEntity k w s) = []
             \<and> jobs (moveEntity k w s)
                 = filter (\<lambda>p. fst p \<notin> set (intervalHandles s)) (jobs s))"
proof -
  have rule1: "\<not> (canJump (options l) = Some True
      \<and> (case blockFromRay w of NoHit \<Rightarrow> False | Hit air \<Rightarrow> air = Some True))"
    using assms(8) by (auto split: raycast.splits)
  show ?thesis
    using assms(1-7) rule1 length3_nonneg [of "subtract (center (location w)) (startPosition l)"]
    by (auto simp: moveEntity_def emit_def resolve_def clearAllIntervals_eq Let_def)
qed

text \<open>
  Claim C6, amended. Let the scheduler run the movement loop of a leg, in any state that
  a manager has reached, on a valid entity that is on the ground, the leg not climbing
  and the rule of the climb not matching. Then the displacement between the block centre
  of the current position and the previous sample is added to the distance travelled,
  which does not decrease, and the sample is updated; if the sum is below the target, the
  full impulse is applied and the leg stays in flight; otherwise, and only then, the tick
  clears all handles, resets the movement speed, teleports the entity to the block centre
  of its position and resolves the leg.
\<close>

theorem advance_on_ground:
  assumes "s = run es (constructor cfg)"
    and "map_of (jobs s) h = Some (MoveJob k)"
    and "legs s k = Some l"
    and "isValid w"
    and "isOnGround w" and "\<not> climbing l"
    and "\<not> (canJump (options l) = Some True \<and> blockFromRay w = Hit (Some True))"
  shows "(\<exists>l'. legs (fire h w s) k = Some l'
            \<and> distanceTraveled l' = distanceTraveled l
                  + length3 (subtract (center (location w)) (startPosition l))
            \<and> distanceTraveled l \<le> distanceTraveled l'
            \<and> startPosition l' = center (location w))
       \<and> (if distanceTraveled l + length3 (subtract (center (location w)) (startPosition l))
              < distance l
          then log (fire h w s) = log s @ [ApplyImpulse (impulseVector l)]
             \<and> waiting (fire h w s) = Some k
             \<and> intervalHandles (fire h w s) = intervalHandles s
             \<and> jobs (fire h w s) = jobs s
          else log (fire h w s) =
                 log s @ map ClearRun (intervalHandles s)
                   @ [ResetToDefaultValue, Teleport (center (location w)), Fulfilled (Queue k)]
             \<and> waiting (fire h w s) = None
             \<and> intervalHandles (fire h w s) = []
             \<and> jobs (fire h w s)
                 = filter (\<lambda>p. fst p \<notin> set (intervalHandles s)) (jobs s))"
proof -
  have live: "waiting s = Some k" "\<not> broken s" "\<not> isStopped s"
    using live_tick [of es cfg h k] assms(1,2) by simp_all
  have "fire h w s = moveEntity k w s"
    using assms(2) by (simp add: fire_def)
  then show ?thesis
    using moveEntity_advance [OF assms(3) live assms(4-7)] by simp
qed

theorem advance_on_ground_witness:
  "map_of (jobs (run one_leg (constructor no_options))) 0 = Some (MoveJob 1)
   \<and> isValid walked \<and> isOnGround walked \<and> blockFromRay walked = NoHit
   \<and> map_option distanceTraveled (legs (fire 0 walked (run one_leg (constructor no_options))) 1)
     = Some 1
   \<and> log (fire 0 walked (run one_leg (constructor no_options)))
     = log (run one_leg (constructor no_options)) @ [ApplyImpulse (Vector3 0 0 (- (1 / 4)))]
   \<and> log (fire 0 arrived (run one_leg (constructor no_options)))
     = log (run one_leg (constructor no_options))
         @ [ClearRun 0, ResetToDefaultValue, Teleport (Vector3 (1 / 2) 0 (- (9 / 2))),
            Fulfilled (Queue 1)]
   \<and> waiting (fire 0 arrived (run one_leg (constructor no_options))) = None"
  using advance_on_ground [OF refl, of one_leg no_options 0 1 _ walked]
    advance_on_ground [OF refl, of one_leg no_options 0 1 _ arrived]
  by (auto simp: leg1_state one_leg_state walked_def arrived_def plain_def
      center_def subtract_def length3_def)

section \<open>The log only grows\<close>

lemma grows_refl: "grows s s"
  by (simp add: grows_def)

lemma grows_trans: "grows s s' \<Longrightarrow> grows s' s'' \<Longrightarrow> grows s s''"
  by (auto simp: grows_def)

lemma grows_moveEntity: "grows s (moveEntity k w s)"
  by (simp add: grows_def moveEntity_def clearAllIntervals_eq resolve_def emit_def Let_def
      split: option.splits raycast.splits)

lemma grows_updateRotation:
  "log s0 = log s \<Longrightarrow> grows s0 (updateRotation k w s)"
  by (simp add: grows_def updateRotation_def clearAllIntervals_eq resolve_def emit_def
      run_once_def Let_def split: option.splits)

lemma grows_executeMove: "log s0 = log s \<Longrightarrow> grows s0 (executeMove k dir dst opts w s)"
  by (simp add: grows_def executeMove_def updateRotation_def clearAllIntervals_eq resolve_def
      reject_def emit_def runInterval_def run_once_def Let_def split: option.splits)

lemma grows_runItem: "grows s (runItem w it s)"
proof (cases it)
  case (Leg k dir dst cfg)
  have "grows s (emit e s)" for e
    by (simp add: grows_def emit_def)
  moreover have "grows (emit e s) (executeMove k dir dst cfg w (emit e s))" for e
    by (rule grows_executeMove) simp
  ultimately have "grows s (executeMove k dir dst cfg w (emit e s))" for e
    by (rule grows_trans)
  moreover have "grows s (executeMove k dir dst cfg w s)"
    by (rule grows_executeMove) simp
  moreover have "grows s (emit (Fulfilled (Queue k)) (clearAllIntervals s))"
    by (simp add: grows_def emit_def clearAllIntervals_eq)
  ultimately show ?thesis
    by (simp add: Leg split: option.splits)
next
  case (Complete j)
  then show ?thesis
    by (simp add: grows_def emit_def split: option.splits)
qed

lemma grows_drain: "grows s (drain w its s)"
proof (induction its arbitrary: s)
  case Nil
  show ?case by (simp add: grows_def)
next
  case (Cons it its)
  have "grows s (s\<lparr>pending := it # its\<rparr>)"
    by (simp add: grows_def)
  moreover have "grows s (drain w its (runItem w it s))"
    using grows_runItem Cons.IH by (rule grows_trans)
  ultimately show ?case by simp
qed

lemma grows_step: "grows s (step e s)"
proof (cases e)
  case (Fire h w)
  have "grows s (updateRotation k w (s\<lparr>jobs := filter (\<lambda>p. fst p \<noteq> h) (jobs s)\<rparr>))" for k
    by (rule grows_updateRotation) simp
  then show ?thesis
    by (simp add: Fire fire_def grows_moveEntity grows_refl split: option.splits job.splits)
next
  case (Flush w)
  then show ?thesis by (simp add: flush_def grows_drain)
qed (simp_all add: grows_def move_def on_def start_def stop_def clearAllIntervals_eq emit_def
      Let_def split: option.splits)

lemma grows_run: "grows s (run es s)"
  unfolding run_def
proof (induction es arbitrary: s)
  case Nil
  show ?case by (simp add: grows_refl)
next
  case (Cons e es)
  have "grows s (fold step es (step e s))"
    using grows_step Cons.IH by (rule grows_trans)
  then show ?case by simp
qed


section \<open>A stopped manager\<close>

lemma list_all_quiet_ClearRun: "list_all quiet (map ClearRun hs)"
  by (induction hs) simp_all

lemma quiet_from_moveEntity: "quiet_from n s \<Longrightarrow> quiet_from n (moveEntity k w s)"
  by (auto simp: quiet_from_def moveEntity_def clearAllIntervals_eq resolve_def emit_def
      list_all_quiet_ClearRun split: option.splits)

lemma quiet_from_updateRotation: "quiet_from n s \<Longrightarrow> quiet_from n (updateRotation k w s)"
  by (auto simp: quiet_from_def updateRotation_def clearAllIntervals_eq resolve_def emit_def
      list_all_quiet_ClearRun split: option.splits)

lemma quiet_from_runItem: "quiet_from n s \<Longrightarrow> quiet_from n (runItem w it s)"
  by (cases it)
    (auto simp: quiet_from_def clearAllIntervals_eq emit_def list_all_quiet_ClearRun
      split: option.splits)

lemma quiet_from_drain: "quiet_from n s \<Longrightarrow> quiet_from n (drain w its s)"
proof (induction its arbitrary: s)
  case Nil
  then show ?case by (simp add: quiet_from_def)
next
  case (Cons it its)
  have "quiet_from n (s\<lparr>pending := it # its\<rparr>)"
    using Cons.prems by (simp add: quiet_from_def)
  then show ?case
    using Cons by (simp add: quiet_from_runItem)
qed

lemma quiet_from_step: "quiet_from n s \<Longrightarrow> quiet_from n (step e s)"
proof (cases e)
  case (Fire h w)
  assume q: "quiet_from n s"
  then have "quiet_from n (s\<lparr>jobs := filter (\<lambda>p. fst p \<noteq> h) (jobs s)\<rparr>)"
    by (simp add: quiet_from_def)
  then have "quiet_from n (updateRotation k w (s\<lparr>jobs := filter (\<lambda>p. fst p \<noteq> h) (jobs s)\<rparr>))" for k
    by (rule quiet_from_updateRotation)
  then show ?thesis
    using q by (simp add: Fire fire_def quiet_from_moveEntity split: option.splits job.splits)
next
  case (Flush w)
  assume "quiet_from n s"
  then show ?thesis by (simp add: Flush flush_def quiet_from_drain)
next
  case (Move dir dst opts)
  assume "quiet_from n s"
  then show ?thesis by (simp add: Move move_def quiet_from_def)
next
  case (On ev cb)
  assume "quiet_from n s"
  then show ?thesis by (simp add: On on_def quiet_from_def)
next
  case Start
  assume "quiet_from n s"
  then show ?thesis by (simp add: Start start_def quiet_from_def)
next
  case Stop
  assume "quiet_from n s"
  then show ?thesis
    by (auto simp: Stop stop_def quiet_from_def clearAllIntervals_eq emit_def Let_def
        list_all_quiet_ClearRun split: option.splits)
qed

lemma quiet_from_run: "quiet_from n s \<Longrightarrow> quiet_from n (run es s)"
  unfolding run_def by (induction es arbitrary: s) (simp_all add: quiet_from_step)

lemma stopped_run_quiet:
  assumes "isStopped s"
  shows "isStopped (run es s) \<and> list_all quiet (since s (run es s))"
proof -
  have "quiet_from (length (log s)) s"
    using assms by (simp add: quiet_from_def)
  then have "quiet_from (length (log s)) (run es s)"
    by (rule quiet_from_run)
  then show ?thesis
    by (simp add: quiet_from_def since_def)
qed




lemma quiet_member: "list_all quiet xs \<Longrightarrow> e \<in> set xs \<Longrightarrow> quiet e"
  by (simp add: list_all_iff)


text \<open>
  Claim C3. A queued leg whose turn arrives when the manager is stopped or the entity is
  not valid clears all tracked handles and fulfils its promise at once, logging nothing but
  the cancellations: it does not invoke \<^verbatim>\<open>onStart\<close>, creates no closure and has no effect
  on the entity. And after any call of \<^verbatim>\<open>stop\<close>, whatever happens later, no handler of
  \<^verbatim>\<open>onStart\<close> is invoked and no impulse, teleport or rotation is applied.
\<close>

theorem stopped_leg_is_noop:
  "((isStopped s \<or> \<not> isValid w) \<longrightarrow>
      intervalHandles (runItem w (Leg k dir dst cfg) s) = []
      \<and> jobs (runItem w (Leg k dir dst cfg) s)
          = filter (\<lambda>p. fst p \<notin> set (intervalHandles s)) (jobs s)
      \<and> log (runItem w (Leg k dir dst cfg) s)
          = log s @ map ClearRun (intervalHandles s) @ [Fulfilled (Queue k)]
      \<and> waiting (runItem w (Leg k dir dst cfg) s) = waiting s
      \<and> legs (runItem w (Leg k dir dst cfg) s) = legs s)
   \<and> OnStartCalled h dir' dst' cfg' \<notin> set (since (snd (stop s)) (run es (snd (stop s))))
   \<and> ApplyImpulse v \<notin> set (since (snd (stop s)) (run es (snd (stop s))))
   \<and> Teleport v \<notin> set (since (snd (stop s)) (run es (snd (stop s))))
   \<and> SetRotation a b \<notin> set (since (snd (stop s)) (run es (snd (stop s))))"
proof -
  have "isStopped (snd (stop s))"
    by (simp add: stop_def clearAllIntervals_eq emit_def Let_def split: option.splits)
  then have "list_all quiet (since (snd (stop s)) (run es (snd (stop s))))"
    by (simp add: stopped_run_quiet)
  then have "\<And>e. e \<in> set (since (snd (stop s)) (run es (snd (stop s)))) \<Longrightarrow> quiet e"
    by (rule quiet_member)
  then have "\<And>e. \<not> quiet e \<Longrightarrow> e \<notin> set (since (snd (stop s)) (run es (snd (stop s))))"
    by blast
  then show ?thesis
    by (simp add: clearAllIntervals_eq emit_def)
qed

theorem stopped_leg_is_noop_witness:
  "isStopped (snd (stop (run one_leg (constructor no_options))))
   \<and> log (runItem plain (Leg 2 ''east'' 5 no_options) (snd (stop (run one_leg (constructor no_options)))))
      = log (snd (stop (run one_leg (constructor no_options)))) @ [Fulfilled (Queue 2)]
   \<and> waiting (runItem plain (Leg 2 ''east'' 5 no_options) (snd (stop (run one_leg (constructor no_options)))))
      = Some 1"
  using stopped_leg_is_noop [where s = "snd (stop (run one_leg (constructor no_options)))"
      and w = plain and k = 2 and dir = "''east''" and dst = 5 and cfg = no_options]
  by (simp add: one_leg_stopped_state)

lemma drain_blocked: "waiting s \<noteq> None \<Longrightarrow> drain w its s = s\<lparr>pending := its\<rparr>"
  by (cases its) simp_all

lemma flush_blocked: "waiting s \<noteq> None \<Longrightarrow> flush w s = s"
  by (simp add: flush_def drain_blocked)

lemma stuck_step:
  assumes "waiting s = Some k" and "jobs s = []"
  shows "waiting (step e s) = Some k \<and> jobs (step e s) = []
       \<and> fulfilled (log (step e s)) = fulfilled (log s)"
proof (cases e)
  case (Flush w)
  then show ?thesis
    using assms by (simp add: flush_blocked)
qed (use assms in \<open>simp_all add: move_def on_def start_def stop_def fire_def clearAllIntervals_eq
      emit_def Let_def fulfilled_simps split: option.splits\<close>)

lemma stuck_for_ever:
  assumes "waiting s = Some k" and "jobs s = []"
  shows "waiting (run es s) = Some k \<and> jobs (run es s) = []
       \<and> fulfilled (log (run es s)) = fulfilled (log s)"
  using assms unfolding run_def
proof (induction es arbitrary: s)
  case Nil
  then show ?case by simp
next
  case (Cons e es)
  have "waiting (step e s) = Some k \<and> jobs (step e s) = []
      \<and> fulfilled (log (step e s)) = fulfilled (log s)"
    using Cons.prems by (rule stuck_step)
  then show ?case
    using Cons.IH [of "step e s"] by simp
qed




section \<open>The movement speed\<close>

lemma no_reset_updateRotation: "no_reset_from n s \<Longrightarrow> no_reset_from n (updateRotation k w s)"
  by (auto simp: no_reset_from_def updateRotation_def clearAllIntervals_eq resolve_def emit_def
      run_once_def split: option.splits)

lemma no_reset_executeMove:
  "no_reset_from n s \<Longrightarrow> no_reset_from n (executeMove k dir dst opts w s)"
  by (auto simp: no_reset_from_def executeMove_def updateRotation_def clearAllIntervals_eq
      resolve_def reject_def emit_def runInterval_def run_once_def Let_def split: option.splits)

lemma no_reset_runItem: "no_reset_from n s \<Longrightarrow> no_reset_from n (runItem w it s)"
proof (cases it)
  case (Leg k dir dst cfg)
  assume a: "no_reset_from n s"
  then have "no_reset_from n (emit (OnStartCalled h dir dst cfg) s)" for h
    by (simp add: no_reset_from_def emit_def)
  then have "no_reset_from n (executeMove k dir dst cfg w (emit (OnStartCalled h dir dst cfg) s))" for h
    by (rule no_reset_executeMove)
  moreover have "no_reset_from n (emit (Fulfilled (Queue k)) (clearAllIntervals s))"
    using a by (auto simp: no_reset_from_def emit_def clearAllIntervals_eq)
  ultimately show ?thesis
    using a by (simp add: Leg no_reset_executeMove split: option.splits)
next
  case (Complete j)
  assume "no_reset_from n s"
  then show ?thesis
    by (simp add: Complete no_reset_from_def emit_def split: option.splits)
qed

lemma no_reset_drain: "no_reset_from n s \<Longrightarrow> no_reset_from n (drain w its s)"
proof (induction its arbitrary: s)
  case Nil
  then show ?case by (simp add: no_reset_from_def)
next
  case (Cons it its)
  have "no_reset_from n (s\<lparr>pending := it # its\<rparr>)"
    using Cons.prems by (simp add: no_reset_from_def)
  then show ?case
    using Cons by (simp add: no_reset_runItem)
qed

lemma no_reset_since: "no_reset_from (length (log s)) s' \<Longrightarrow> ResetToDefaultValue \<notin> set (since s s')"
  by (simp add: no_reset_from_def since_def)

lemma no_reset_start: "no_reset_from (length (log s)) s"
  by (simp add: no_reset_from_def)

lemma reset_moveEntity:
  assumes "ResetToDefaultValue \<in> set (since s (moveEntity k w s))"
  shows "\<exists>l. legs s k = Some l \<and> \<not> isStopped s \<and> isValid w \<and> isOnGround w \<and> \<not> climbing l
            \<and> distance l \<le> distanceTraveled l
                  + length3 (subtract (center (location w)) (startPosition l))"
  using assms
  by (auto simp: since_def moveEntity_def clearAllIntervals_eq resolve_def emit_def Let_def
      split: option.splits if_splits)

text \<open>
  Claim C9. \<^verbatim>\<open>resetToDefaultValue\<close> is invoked only by a tick of the movement loop that
  passes the abort check and finds the distance reached. A callback that aborts a leg
  (the manager is stopped or the entity is not valid) and a call of \<^verbatim>\<open>stop\<close> log quiet
  effects only, so they neither reset the movement speed nor set it: it stays at the 0
  that \<^verbatim>\<open>executeMove\<close> sets first when it starts a leg.
\<close>

theorem reset_only_on_success:
  "(ResetToDefaultValue \<in> set (since s (step e s)) \<longrightarrow>
      (\<exists>h w k l. e = Fire h w \<and> map_of (jobs s) h = Some (MoveJob k) \<and> legs s k = Some l
          \<and> \<not> isStopped s \<and> isValid w \<and> isOnGround w \<and> \<not> climbing l
          \<and> distance l \<le> distanceTraveled l
                + length3 (subtract (center (location w)) (startPosition l))))
   \<and> (isStopped s \<or> \<not> isValid w' \<longrightarrow> list_all quiet (since s (step (Fire h' w') s)))
   \<and> list_all quiet (since s (step Stop s))
   \<and> (isValid w0 \<and> movementComponent w0 \<noteq> None \<and> directions dir \<noteq> None \<longrightarrow>
        take 1 (since s (executeMove k' dir dst opts w0 s)) = [SetCurrentValue 0])"
proof -
  have a: "ResetToDefaultValue \<in> set (since s (step e s)) \<longrightarrow>
      (\<exists>h w k l. e = Fire h w \<and> map_of (jobs s) h = Some (MoveJob k) \<and> legs s k = Some l
          \<and> \<not> isStopped s \<and> isValid w \<and> isOnGround w \<and> \<not> climbing l
          \<and> distance l \<le> distanceTraveled l
                + length3 (subtract (center (location w)) (startPosition l)))"
  proof (cases e)
    case (Fire h w)
    have "no_reset_from (length (log s)) (s\<lparr>jobs := filter (\<lambda>p. fst p \<noteq> h) (jobs s)\<rparr>)"
      by (simp add: no_reset_from_def)
    then have "no_reset_from (length (log s))
        (updateRotation k w (s\<lparr>jobs := filter (\<lambda>p. fst p \<noteq> h) (jobs s)\<rparr>))" for k
      by (rule no_reset_updateRotation)
    then have rot: "ResetToDefaultValue \<notin> set (since s
        (updateRotation k w (s\<lparr>jobs := filter (\<lambda>p. fst p \<noteq> h) (jobs s)\<rparr>)))" for k
      by (rule no_reset_since)
    have idle: "ResetToDefaultValue \<notin> set (since s s)"
      by (simp add: since_def)
    show ?thesis
      using rot idle reset_moveEntity [of s _ w]
      by (auto simp: Fire fire_def split: option.splits job.splits)
  next
    case (Flush w)
    have "no_reset_from (length (log s)) (drain w (pending s) s)"
      using no_reset_start by (rule no_reset_drain)
    then show ?thesis
      using no_reset_since by (simp add: Flush flush_def)
  qed (auto simp: since_def move_def on_def start_def stop_def clearAllIntervals_eq emit_def
        Let_def split: option.splits)
  have b: "isStopped s \<or> \<not> isValid w' \<longrightarrow> list_all quiet (since s (step (Fire h' w') s))"
    by (auto simp: since_def fire_def moveEntity_def updateRotation_def clearAllIntervals_eq
        resolve_def emit_def list_all_quiet_ClearRun split: option.splits job.splits)
  have c: "list_all quiet (since s (step Stop s))"
    by (simp add: since_def stop_def clearAllIntervals_eq emit_def Let_def
        list_all_quiet_ClearRun split: option.splits)
  have d: "isValid w0 \<and> movementComponent w0 \<noteq> None \<and> directions dir \<noteq> None \<longrightarrow>
        take 1 (since s (executeMove k' dir dst opts w0 s)) = [SetCurrentValue 0]"
    by (auto simp: since_def executeMove_def updateRotation_def clearAllIntervals_eq resolve_def
        emit_def runInterval_def run_once_def Let_def split: option.splits)
  show ?thesis
    using a b c d by blast
qed

theorem reset_only_on_success_witness:
  "ResetToDefaultValue \<in> set (since (run one_leg (constructor no_options))
       (step (Fire 0 arrived) (run one_leg (constructor no_options))))
   \<and> map_of (jobs (run one_leg (constructor no_options))) 0 = Some (MoveJob 1)
   \<and> isStopped (snd (stop (run one_leg (constructor no_options))))
   \<and> list_all quiet (since (snd (stop (run one_leg (constructor no_options))))
        (step (Fire 1 plain) (snd (stop (run one_leg (constructor no_options))))))
   \<and> isValid plain \<and> movementComponent plain \<noteq> None \<and> directions ''north'' \<noteq> None
   \<and> take 1 (since (constructor no_options)
        (executeMove 1 ''north'' 5 no_options plain (constructor no_options)))
      = [SetCurrentValue 0]"
proof -
  have hyp: "ResetToDefaultValue \<in> set (since (run one_leg (constructor no_options))
       (step (Fire 0 arrived) (run one_leg (constructor no_options))))"
    by (simp add: one_leg_state leg1_state arrived_def plain_def fire_def moveEntity_def
        since_def center_def subtract_def length3_def clearAllIntervals_eq resolve_def emit_def
        Let_def)
  show ?thesis
    using hyp
      reset_only_on_success [of "run one_leg (constructor no_options)" "Fire 0 arrived"]
      reset_only_on_success [of "snd (stop (run one_leg (constructor no_options)))" _ plain 1]
      reset_only_on_success [where s = "constructor no_options" and ?w0.0 = plain
        and dir = "''north''" and k' = 1 and dst = 5 and opts = no_options]
    by (auto simp: one_leg_state one_leg_stopped_state plain_def directions_def)
qed

section \<open>Stopping\<close>

text \<open>
  Claim C5, as stated, fails: \<^verbatim>\<open>stop\<close> returns \<^verbatim>\<open>this.queue\<close>, not the promise that
  \<^verbatim>\<open>start\<close> has returned. On a route that is started and then stopped, the promise
  returned by \<^verbatim>\<open>stop\<close> is fulfilled as soon as the leg in flight resolves, while the one
  returned by \<^verbatim>\<open>start\<close> is still pending and \<^verbatim>\<open>onComplete\<close> has not been invoked.
  And when \<^verbatim>\<open>start\<close> is called before a leg is enqueued, its promise is fulfilled and
  \<^verbatim>\<open>onComplete\<close> invoked before the leg begins, while \<^verbatim>\<open>stop\<close> returns the promise of
  that leg, which is still in flight.
\<close>

theorem stop_signal_differs:
  "fst (start (run route_setup (constructor no_options))) = Completion 0
   \<and> fst (stop (run route_started (constructor no_options))) = Queue 1
   \<and> fulfilled (log (run route_stopped (constructor no_options))) = [Queue 1]
   \<and> completed (log (run route_stopped (constructor no_options))) = []
   \<and> pending (run route_stopped (constructor no_options)) = [Complete 0]
   \<and> fulfilled (log (run early_start (constructor no_options))) = [Completion 0]
   \<and> completed (log (run early_start (constructor no_options))) = [8]
   \<and> fst (stop (run early_start (constructor no_options))) = Queue 1
   \<and> waiting (snd (stop (run early_start (constructor no_options)))) = Some 1"
  by (simp add: route_stopped_def route_started_def route_setup_def early_start_def
      no_options_def plain_def eval_defs)

text \<open>
  Claim C5, amended. Every call of \<^verbatim>\<open>stop\<close> sets the stopped flag, cancels and forgets
  all tracked handles, invokes the handler of \<^verbatim>\<open>onStop\<close> once, and returns the promise
  held in \<^verbatim>\<open>this.queue\<close>: the one of the leg enqueued last, or the resolved promise of the
  constructor when no leg has been enqueued. A call of \<^verbatim>\<open>start\<close> does not change it, and
  it is never the promise that a call of \<^verbatim>\<open>start\<close> returns. A second call of \<^verbatim>\<open>stop\<close>
  invokes the handler again.
\<close>

theorem stop_clears_and_notifies:
  "isStopped (snd (stop s))
   \<and> intervalHandles (snd (stop s)) = []
   \<and> jobs (snd (stop s)) = filter (\<lambda>p. fst p \<notin> set (intervalHandles s)) (jobs s)
   \<and> log (snd (stop s)) =
       log s @ map ClearRun (intervalHandles s)
         @ (case onStop (callbacks s) of None \<Rightarrow> [] | Some h \<Rightarrow> [OnStopCalled h])
   \<and> log (snd (stop (snd (stop s)))) =
       log (snd (stop s))
         @ (case onStop (callbacks s) of None \<Rightarrow> [] | Some h \<Rightarrow> [OnStopCalled h])
   \<and> fst (stop s) = Queue (moves s)
   \<and> fst (stop (constructor cfg)) = Queue 0
   \<and> fst (stop (move dir dst opts s)) = promise_of (last (pending (move dir dst opts s)))
   \<and> fst (stop (snd (start s))) = fst (stop s)
   \<and> fst (stop s) \<noteq> fst (start s')"
  by (simp add: stop_def start_def move_def constructor_def clearAllIntervals_eq emit_def Let_def
      split: option.splits)

section \<open>An entity without a movement component\<close>

text \<open>
  Claim C2 says that a leg on an entity without a movement component does not fail: the
  speed falls back to 0.1, the leg proceeds and no completion is rejected. The code does
  otherwise: the executor of the leg throws before the fallback applies. On the route
  below the promise of the leg is rejected after \<^verbatim>\<open>onStart\<close> has been invoked, nothing
  is done to the entity, the next leg and the reaction of \<^verbatim>\<open>start\<close> stay pending, and
  running the jobs of the promises again changes nothing.
\<close>

theorem missing_component_rejects:
  "log (run no_component_route (constructor no_options))
     = [OnStartCalled 7 ''north'' 5 \<lparr>canJump = Some True\<rparr>, Rejected (Queue 1)]
   \<and> broken (run no_component_route (constructor no_options))
   \<and> pending (run no_component_route (constructor no_options))
     = [Leg 2 ''east'' 5 \<lparr>canJump = Some True\<rparr>, Complete 0]
   \<and> run (no_component_route @ [Flush plain]) (constructor no_options)
     = run no_component_route (constructor no_options)"
  by (simp add: no_component_route_def no_options_def plain_def bare_def eval_defs)

lemma executeMove_missing_component:
  "isValid w \<Longrightarrow> movementComponent w = None
   \<Longrightarrow> executeMove k dir dst opts w s = reject k (s\<lparr>waiting := Some k\<rparr>)"
  by (simp add: executeMove_def)

section \<open>Completion of a route\<close>























end
